theory Spec2Isabelle
  imports Main "HOL-Library.AList"
begin

section \<open>Strings and paths\<close>

text \<open>
  Go strings and byte slices are sequences of bytes; both are modelled as \<open>char list\<close>
  (an Isabelle \<open>char\<close> is one byte). The functions of the Go standard library that
  \<^verbatim>\<open>main.go\<close> calls on names (\<^verbatim>\<open>strings.HasPrefix\<close>, \<^verbatim>\<open>strings.HasSuffix\<close>,
  \<^verbatim>\<open>strings.TrimPrefix\<close>, \<^verbatim>\<open>strings.ToLower\<close>, \<^verbatim>\<open>path.Ext\<close>, \<^verbatim>\<open>path.Clean\<close>,
  \<^verbatim>\<open>path.Join\<close>) are written out byte by byte, following their library implementations.
\<close>

type_synonym bytes = "char list"

definition strings_HasPrefix :: "string \<Rightarrow> string \<Rightarrow> bool" where
  "strings_HasPrefix s pre = (length s \<ge> length pre \<and> take (length pre) s = pre)"

definition strings_HasSuffix :: "string \<Rightarrow> string \<Rightarrow> bool" where
  "strings_HasSuffix s suf = (length s \<ge> length suf \<and> drop (length s - length suf) s = suf)"

definition strings_TrimPrefix :: "string \<Rightarrow> string \<Rightarrow> string" where
  "strings_TrimPrefix s pre = (if strings_HasPrefix s pre then drop (length pre) s else s)"

text \<open>
  \<^verbatim>\<open>strings.ToLower\<close> on the ASCII letters: a byte in \<open>A..Z\<close> moves up by 32, every other
  byte stays. (Names are taken as ASCII; the Unicode case tables are not modelled.)
\<close>

definition lower_byte :: "char \<Rightarrow> char" where
  "lower_byte c = (let n = (of_char c :: nat) in if 65 \<le> n \<and> n \<le> 90 then char_of (n + 32) else c)"

definition strings_ToLower :: "string \<Rightarrow> string" where
  "strings_ToLower s = map lower_byte s"

text \<open>
  \<^verbatim>\<open>path.Ext\<close> scans from the last byte towards the front, stops at a slash, and returns
  the suffix starting at the first dot it meets. \<open>ext_scan\<close> walks the reversed name and
  collects the bytes already passed.
\<close>

fun ext_scan :: "string \<Rightarrow> string \<Rightarrow> string" where
  "ext_scan [] acc = []"
| "ext_scan (c # cs) acc =
     (if c = CHR ''/'' then []
      else if c = CHR ''.'' then c # acc
      else ext_scan cs (c # acc))"

definition path_Ext :: "string \<Rightarrow> string" where
  "path_Ext p = ext_scan (rev p) []"

text \<open>On the server's platform \<^verbatim>\<open>filepath.Ext\<close> is \<^verbatim>\<open>path.Ext\<close> (the separator is the slash).\<close>

definition filepath_Ext :: "string \<Rightarrow> string" where
  "filepath_Ext p = path_Ext p"

text \<open>
  \<^verbatim>\<open>path.Clean\<close>. The library writes into a buffer \<open>out\<close> with write index \<open>w\<close>; here the
  buffer is the list \<open>out\<close> and \<open>w\<close> is its length. \<open>dotdot\<close> is the index where
  backtracking over a \<open>..\<close> element must stop.

  \<open>backtrack buf dotdot w\<close> is the inner loop of the \<open>..\<close> case after the first decrement
  of \<open>w\<close>: it moves \<open>w\<close> down while \<open>w > dotdot\<close> and the byte at \<open>w\<close> is not a slash.
\<close>

fun backtrack :: "string \<Rightarrow> nat \<Rightarrow> nat \<Rightarrow> nat" where
  "backtrack buf dotdot 0 = 0"
| "backtrack buf dotdot (Suc w) =
     (if Suc w > dotdot \<and> buf ! (Suc w) \<noteq> CHR ''/'' then backtrack buf dotdot w else Suc w)"

function clean_loop :: "bool \<Rightarrow> string \<Rightarrow> string \<Rightarrow> nat \<Rightarrow> string" where
  "clean_loop rooted [] out dotdot = out"
| "clean_loop rooted (c # cs) out dotdot =
     (if c = CHR ''/'' then
        \<comment> \<open>empty path element\<close>
        clean_loop rooted cs out dotdot
      else if c = CHR ''.'' \<and> (cs = [] \<or> hd cs = CHR ''/'') then
        \<comment> \<open>. element\<close>
        clean_loop rooted cs out dotdot
      else if c = CHR ''.'' \<and> cs \<noteq> [] \<and> hd cs = CHR ''.''
              \<and> (tl cs = [] \<or> hd (tl cs) = CHR ''/'') then
        \<comment> \<open>.. element: remove to last slash\<close>
        (if length out > dotdot then
           clean_loop rooted (tl cs) (take (backtrack out dotdot (length out - 1)) out) dotdot
         else if \<not> rooted then
           (let out' = (if length out > 0 then out @ ''/'' else out) @ ''..''
            in clean_loop rooted (tl cs) out' (length out'))
         else clean_loop rooted (tl cs) out dotdot)
      else
        \<comment> \<open>real path element: add a slash if needed, copy the element\<close>
        clean_loop rooted (dropWhile (\<lambda>x. x \<noteq> CHR ''/'') (c # cs))
          ((if rooted \<and> length out \<noteq> 1 \<or> \<not> rooted \<and> length out \<noteq> 0 then out @ ''/'' else out)
             @ takeWhile (\<lambda>x. x \<noteq> CHR ''/'') (c # cs))
          dotdot)"
  by pat_completeness auto
termination
  by (relation "measure (\<lambda>(rooted, p, out, dotdot). length p)")
     (auto simp: less_Suc_eq_le length_dropWhile_le intro: le_trans [OF length_dropWhile_le])

definition path_Clean :: "string \<Rightarrow> string" where
  "path_Clean p =
     (if p = [] then ''.''
      else
        (let rooted = (hd p = CHR ''/'');
             res = (if rooted then clean_loop rooted (tl p) ''/'' 1
                    else clean_loop rooted p [] 0)
         in if res = [] then ''.'' else res))"

text \<open>
  \<^verbatim>\<open>path.Join\<close>: nothing for all-empty arguments; otherwise the arguments are appended
  to a buffer, a slash before every argument once the buffer is non-empty (leading empty
  arguments are skipped), and the result is cleaned.
\<close>

fun join_buf :: "string \<Rightarrow> string list \<Rightarrow> string" where
  "join_buf buf [] = buf"
| "join_buf buf (e # es) =
     join_buf (if length buf > 0 \<or> e \<noteq> []
               then (if length buf > 0 then buf @ ''/'' else buf) @ e
               else buf) es"

definition path_Join :: "string list \<Rightarrow> string" where
  "path_Join elems = (if concat elems = [] then [] else path_Clean (join_buf [] elems))"

section \<open>Helper functions of main.go\<close>

text \<open>\<^verbatim>\<open>getThumbPath\<close> (main.go, lines 90-95).\<close>

definition getThumbPath :: "string \<Rightarrow> string" where
  "getThumbPath originalPath =
     (let ext = path_Ext originalPath;
          nameWithoutExt = take (length originalPath - length ext) originalPath
      in path_Join [''thumb'', nameWithoutExt @ ''.jpg''])"

text \<open>
  \<open>strip_ext\<close> names the expression \<^verbatim>\<open>originalPath[:len(originalPath)-len(ext)]\<close> of
  \<^verbatim>\<open>getThumbPath\<close>, so that theorems can speak of "the name without its extension".
\<close>

definition strip_ext :: "string \<Rightarrow> string" where
  "strip_ext p = take (length p - length (path_Ext p)) p"

text \<open>
  The segments of a name between slashes (\<^verbatim>\<open>strings.Split(p, "/")\<close>), and the names whose
  directory segments (all segments but the last) are ordinary: not empty, not \<open>.\<close>, not
  \<open>..\<close>. These are used to state on which names cleaning leaves the thumbnail key as
  concatenated.
\<close>

fun split_slash :: "string \<Rightarrow> string list" where
  "split_slash [] = [[]]"
| "split_slash (c # cs) =
     (if c = CHR ''/'' then [] # split_slash cs
      else (c # hd (split_slash cs)) # tl (split_slash cs))"

definition real_elem :: "string \<Rightarrow> bool" where
  "real_elem e = (e \<noteq> [] \<and> e \<noteq> ''.'' \<and> e \<noteq> ''..'')"

definition clean_dirs :: "string \<Rightarrow> bool" where
  "clean_dirs p = list_all real_elem (butlast (split_slash p))"

text \<open>\<^verbatim>\<open>hasSuffix\<close> (main.go, lines 124-130): case-insensitive test against a list of suffixes.\<close>

fun hasSuffix_loop :: "string \<Rightarrow> string list \<Rightarrow> bool" where
  "hasSuffix_loop name [] = False"
| "hasSuffix_loop name (s # ss) =
     (if strings_HasSuffix name (strings_ToLower s) then True else hasSuffix_loop name ss)"

definition hasSuffix :: "string \<Rightarrow> string list \<Rightarrow> bool" where
  "hasSuffix name suffixes = hasSuffix_loop (strings_ToLower name) suffixes"

text \<open>The two suffix lists that the handlers pass to \<^verbatim>\<open>hasSuffix\<close>.\<close>

definition video_exts :: "string list" where
  "video_exts = [''.mp4'', ''.mov'', ''.mkv'', ''.webm'']"

definition image_exts :: "string list" where
  "image_exts = [''.jpg'', ''.jpeg'', ''.png'', ''.gif'', ''.webp'']"

text \<open>
  The media classification of the specification: a label derived from the extension. The
  upload handler tests the video suffixes first and the image suffixes second (lines 321
  and 324); the label follows that order.
\<close>

datatype media_class = Image | Video | Other

definition classify :: "string \<Rightarrow> media_class" where
  "classify name =
     (if hasSuffix name video_exts then Video
      else if hasSuffix name image_exts then Image
      else Other)"

section \<open>The collaborators: object store, image codec, transcoder, local files\<close>

text \<open>
  Everything outside \<^verbatim>\<open>main.go\<close> is a parameter. An environment fixes, for one run, what
  each collaborator answers:
  \<^item> \<open>imaging_Decode\<close>, \<open>imaging_Resize\<close>, \<open>imaging_Encode\<close>: the image codec.
    \<open>imaging_Resize\<close> is the call with width 300, height 0 and the Lanczos filter;
    \<open>imaging_Encode\<close> is the JPEG encoder and gives the bytes left in the buffer and
    whether it reported an error;
  \<^item> \<open>run_ffmpeg\<close>: the transcoder on the content of the video file: \<open>None\<close> when the
    command fails, otherwise the content of the frame file it leaves;
  \<^item> \<open>create_temp_fails\<close> (by pattern), \<open>read_file_fails\<close>, \<open>copy_fails\<close>: failures of
    \<^verbatim>\<open>os.CreateTemp\<close>, of \<^verbatim>\<open>os.ReadFile\<close> on the frame file, and of the copy of an upload
    into its temporary file;
  \<^item> \<open>attrs_fails\<close>: the attribute request for a name fails although the object may exist;
  \<^item> \<open>store_write\<close>: what happens to a write of given bytes under a given name:
    accepted, refused with an error from \<^verbatim>\<open>Write\<close> (which the code sees), or lost with
    an error from \<^verbatim>\<open>Close\<close> (whose result the code drops at lines 257, 312 and 344);
  \<^item> \<open>list_error\<close>: the error of the bucket iterator, if any;
  \<^item> \<open>sha1_hex\<close>, \<open>mime_TypeByExtension\<close>: the hash shown in the log and the platform's
    MIME table.
\<close>

datatype write_outcome = WriteOk | WriteErr | CloseErr

record 'img env =
  imaging_Decode :: "bytes \<Rightarrow> 'img option"
  imaging_Resize :: "'img \<Rightarrow> 'img"
  imaging_Encode :: "'img \<Rightarrow> bytes \<times> bool"
  run_ffmpeg :: "bytes \<Rightarrow> bytes option"
  create_temp_fails :: "string \<Rightarrow> bool"
  read_file_fails :: bool
  copy_fails :: bool
  attrs_fails :: "string \<Rightarrow> bool"
  store_write :: "string \<Rightarrow> bytes \<Rightarrow> write_outcome"
  list_error :: "string option"
  sha1_hex :: "bytes \<Rightarrow> string"
  mime_TypeByExtension :: "string \<Rightarrow> string"

text \<open>
  The state that a request can change: the bucket (names with their bytes, in listing
  order), the lines written to the log, and the calls made to the codec and the
  transcoder (the call-count seam of the specification).
\<close>

datatype call = CallFFmpeg | CallDecode | CallResize | CallEncode

datatype log_entry =
    LogFFmpegFailed
  | LogGenerating string string
  | LogVideoThumbFailed
  | LogSaveThumbFailed
  | LogSHA1 string
  | LogGenerated string

record world =
  w_store :: "(string \<times> bytes) list"
  w_log :: "log_entry list"
  w_calls :: "call list"

definition add_log :: "log_entry \<Rightarrow> world \<Rightarrow> world" where
  "add_log e w = w\<lparr>w_log := w_log w @ [e]\<rparr>"

definition add_call :: "call \<Rightarrow> world \<Rightarrow> world" where
  "add_call c w = w\<lparr>w_calls := w_calls w @ [c]\<rparr>"

text \<open>
  The store client. \<open>obj_Attrs\<close> is \<^verbatim>\<open>Object.Attrs\<close> (the size is the only attribute
  kept); it fails for a missing object. \<open>obj_NewReader\<close> is \<^verbatim>\<open>Object.NewReader\<close>: the
  client library always hands back a reader, and a missing object shows only when the
  reader is read (\<open>reader_read\<close>). \<open>obj_put\<close> is the effect on the bucket of
  \<^verbatim>\<open>NewWriter\<close>, \<^verbatim>\<open>Write\<close> and \<^verbatim>\<open>Close\<close> together: the object is there afterwards exactly
  when the store accepted the write. Reading an object that exists delivers its bytes;
  requests run one after the other (no interleaving of two requests is modelled).
\<close>

definition obj_Attrs :: "'img env \<Rightarrow> world \<Rightarrow> string \<Rightarrow> nat option" where
  "obj_Attrs env w name =
     (if attrs_fails env name then None else map_option length (map_of (w_store w) name))"

definition obj_NewReader :: "string \<Rightarrow> string option" where
  "obj_NewReader name = Some name"

definition reader_read :: "world \<Rightarrow> string \<Rightarrow> bytes option" where
  "reader_read w rc = map_of (w_store w) rc"

definition obj_put :: "'img env \<Rightarrow> string \<Rightarrow> bytes \<Rightarrow> world \<Rightarrow> world" where
  "obj_put env name data w =
     (if store_write env name data = WriteOk
      then w\<lparr>w_store := AList.update name data (w_store w)\<rparr>
      else w)"

section \<open>Responses\<close>

datatype response =
    NotFound
  | HttpError string nat
  | Redirect string nat
  | Served string string bytes
  | IndexPage "(string \<times> nat \<times> string \<times> string) list"
  | UploadForm
  | UploadDone string nat

text \<open>
  \<open>Served ct cc body\<close> is a status-200 answer with the headers Content-Type \<open>ct\<close> and
  Cache-Control \<open>cc\<close>. \<open>IndexPage\<close> carries the rows given to the index template: name,
  size in bytes, content type and thumbnail URL (the size and date are formatted for
  display by the code; the formatting is not modelled). \<open>UploadDone p n\<close> is the upload
  page with the message that \<open>p\<close> of \<open>n\<close> bytes was uploaded.
\<close>

definition row_Name :: "string \<times> nat \<times> string \<times> string \<Rightarrow> string" where
  "row_Name r = fst r"


section \<open>Thumbnail generation for videos\<close>

text \<open>
  \<^verbatim>\<open>generateVideoThumbnail\<close> (main.go, lines 97-122). The argument is the content of the
  file at \<^verbatim>\<open>videoPath\<close>. The Go function returns a pair of bytes and error; its callers
  look at the bytes only when the error is nil, so the model returns either an error or
  the bytes.
\<close>

datatype gen_error = TempError | FFmpegError | ReadError | EncodeError

definition generateVideoThumbnail ::
  "'img env \<Rightarrow> bytes \<Rightarrow> world \<Rightarrow> (gen_error + bytes) \<times> world" where
  "generateVideoThumbnail env video w =
     (if create_temp_fails env ''vid-thumb-*.jpg'' then (Inl TempError, w)
      else
        (let w1 = add_call CallFFmpeg w in
         case run_ffmpeg env video of
           None \<Rightarrow> (Inl FFmpegError, add_log LogFFmpegFailed w1)
         | Some imgData \<Rightarrow>
             if read_file_fails env then (Inl ReadError, w1)
             else
               (let w2 = add_call CallDecode w1 in
                case imaging_Decode env imgData of
                  None \<Rightarrow> (Inr imgData, w2)
                | Some img \<Rightarrow>
                    (let resized = imaging_Resize env img;
                         w3 = add_call CallResize w2;
                         (buf, err) = imaging_Encode env resized;
                         w4 = add_call CallEncode w3
                     in (if err then Inl EncodeError else Inr buf, w4)))))"

section \<open>The index handler\<close>

text \<open>\<^verbatim>\<open>detectContentType\<close> (main.go, lines 132-143).\<close>

definition detectContentType :: "'img env \<Rightarrow> string \<Rightarrow> string" where
  "detectContentType env name =
     (let ext = filepath_Ext name;
          ct = mime_TypeByExtension env ext
      in if ct \<noteq> [] then ct
         else if ext = ''.mp4'' then ''video/mp4''
         else if ext = ''.mov'' then ''video/quicktime''
         else if ext = ''.webm'' then ''video/webm''
         else if ext = ''.mkv'' then ''video/x-matroska''
         else ''application/octet-stream'')"

text \<open>
  \<^verbatim>\<open>indexHandler\<close> (main.go, lines 157-194). \<open>index_loop\<close> is the loop over the bucket
  iterator (lines 161-191): the names still to visit and the rows collected so far.
\<close>

fun index_loop ::
  "'img env \<Rightarrow> world \<Rightarrow> string list \<Rightarrow> (string \<times> nat \<times> string \<times> string) list
    \<Rightarrow> (string \<times> nat \<times> string \<times> string) list" where
  "index_loop env w [] files = files"
| "index_loop env w (name # rest) files =
     (if strings_HasPrefix name ''thumb/'' then index_loop env w rest files
      else
        (case obj_Attrs env w name of
           None \<Rightarrow> index_loop env w rest files
         | Some sz \<Rightarrow>
             (let isMedia = hasSuffix name [''.jpg'', ''.jpeg'', ''.png'', ''.gif'', ''.webp'',
                                            ''.mp4'', ''.mov'', ''.mkv'', ''.webm''];
                  thumbURL = (if isMedia then ''/thumb/'' @ name else ''/static/file-icon.png'')
              in index_loop env w rest
                   (files @ [(name, sz, detectContentType env name, thumbURL)]))))"

definition indexHandler :: "'img env \<Rightarrow> world \<Rightarrow> response \<times> world" where
  "indexHandler env w =
     (let files = index_loop env w (map fst (w_store w)) []
      in case list_error env of
           Some msg \<Rightarrow> (HttpError msg 500, w)
         | None \<Rightarrow> (IndexPage files, w))"

section \<open>The thumbnail handler\<close>

text \<open>
  \<^verbatim>\<open>thumbHandler\<close> (main.go, lines 197-272), in three parts. \<open>thumb_generate\<close> is the
  block of lines 231-250 that produces \<^verbatim>\<open>thumbData\<close> from the downloaded original, or
  ends the request early (\<open>Inl\<close> of the response). \<open>thumb_save_and_serve\<close> is the block
  of lines 252-262 that writes the bytes under the thumbnail key and answers with them.
  \<open>thumbHandler\<close> is the handler: the argument is \<^verbatim>\<open>r.URL.Path\<close>.
\<close>

definition thumb_generate ::
  "'img env \<Rightarrow> string \<Rightarrow> bytes \<Rightarrow> world \<Rightarrow> (response + bytes) \<times> world" where
  "thumb_generate env originalName orig w =
     (if hasSuffix originalName [''.mp4'', ''.mov'', ''.mkv'', ''.webm''] then
        (case generateVideoThumbnail env orig w of
           (Inl err, w') \<Rightarrow>
             (Inl (Redirect ''/static/file-icon.png'' 302), add_log LogVideoThumbFailed w')
         | (Inr thumbData, w') \<Rightarrow> (Inr thumbData, w'))
      else
        (let w1 = add_call CallDecode w in
         case imaging_Decode env orig of
           None \<Rightarrow> (Inl (HttpError ''decode failed'' 500), w1)
         | Some srcImage \<Rightarrow>
             (let thumbImg = imaging_Resize env srcImage;
                  w2 = add_call CallResize w1;
                  (buf, err) = imaging_Encode env thumbImg;
                  w3 = add_call CallEncode w2
              in (Inr buf, w3))))"

definition thumb_save_and_serve ::
  "'img env \<Rightarrow> string \<Rightarrow> bytes \<Rightarrow> world \<Rightarrow> response \<times> world" where
  "thumb_save_and_serve env thumbB2Path thumbData w =
     (let w1 = (if store_write env thumbB2Path thumbData = WriteErr
                then add_log LogSaveThumbFailed w else w);
          w2 = obj_put env thumbB2Path thumbData w1
      in (Served ''image/jpeg'' ''public, max-age=604800'' thumbData, w2))"

definition thumbHandler :: "'img env \<Rightarrow> string \<Rightarrow> world \<Rightarrow> response \<times> world" where
  "thumbHandler env url_path w =
     (let originalName = strings_TrimPrefix url_path ''/thumb/'' in
      if originalName = [] then (NotFound, w)
      else
        (let thumbB2Path = getThumbPath originalName in
         case obj_Attrs env w thumbB2Path of
           None \<Rightarrow>
             \<comment> \<open>generate the missing thumbnail\<close>
             (let w1 = add_log (LogGenerating originalName thumbB2Path) w in
              case obj_NewReader originalName of
                None \<Rightarrow> (NotFound, w1)
              | Some rc \<Rightarrow>
                  if create_temp_fails env (''orig-*'' @ filepath_Ext originalName)
                  then (HttpError ''temp error'' 500, w1)
                  else
                    (case reader_read w1 rc of
                       None \<Rightarrow> (HttpError ''download failed'' 500, w1)
                     | Some orig \<Rightarrow>
                         (case thumb_generate env originalName orig w1 of
                            (Inl resp, w2) \<Rightarrow> (resp, w2)
                          | (Inr thumbData, w2) \<Rightarrow>
                              thumb_save_and_serve env thumbB2Path thumbData w2)))
         | Some attrs \<Rightarrow>
             \<comment> \<open>serve the existing thumbnail\<close>
             (case obj_NewReader thumbB2Path of
                None \<Rightarrow> (HttpError ''failed'' 500, w)
              | Some rc \<Rightarrow>
                  (Served ''image/jpeg'' ''public, max-age=604800''
                     (case reader_read w rc of Some body \<Rightarrow> body | None \<Rightarrow> []), w))))"

section \<open>The upload handler\<close>



definition upload_generate ::
  "'img env \<Rightarrow> string \<Rightarrow> bytes \<Rightarrow> world \<Rightarrow> bytes option \<times> world" where
  "upload_generate env objectPath content w =
     (if hasSuffix objectPath [''.mp4'', ''.mov'', ''.mkv'', ''.webm''] then
        (case generateVideoThumbnail env content w of
           (Inl genErr, w') \<Rightarrow> (None, w')
         | (Inr thumbData, w') \<Rightarrow> (Some thumbData, w'))
      else if hasSuffix objectPath [''.jpg'', ''.jpeg'', ''.png'', ''.gif'', ''.webp''] then
        (let w1 = add_call CallDecode w in
         case imaging_Decode env content of
           None \<Rightarrow> (None, w1)
         | Some srcImage \<Rightarrow>
             (let thumbImg = imaging_Resize env srcImage;
                  w2 = add_call CallResize w1;
                  (buf, err) = imaging_Encode env thumbImg;
                  w3 = add_call CallEncode w2
              in (Some buf, w3)))
      else (None, w))"


section \<open>An example environment and example buckets\<close>

text \<open>
  A small concrete world for evaluating the handlers. Images are byte strings: the codec
  decodes exactly the contents that start with \<open>IMG\<close>; the transcoder extracts a frame
  from exactly the contents that start with \<open>VID\<close> (the frame is the rest of the
  content); nothing else fails and the store accepts every write.
\<close>

definition example_env :: "bytes env" where
  "example_env =
     \<lparr> imaging_Decode = (\<lambda>b. if take 3 b = ''IMG'' then Some (drop 3 b) else None),
       imaging_Resize = (\<lambda>i. take 2 i),
       imaging_Encode = (\<lambda>i. (''JPG'' @ i, False)),
       run_ffmpeg = (\<lambda>v. if take 3 v = ''VID'' then Some (drop 3 v) else None),
       create_temp_fails = (\<lambda>pattern. False),
       read_file_fails = False,
       copy_fails = False,
       attrs_fails = (\<lambda>name. False),
       store_write = (\<lambda>name data. WriteOk),
       list_error = None,
       sha1_hex = (\<lambda>b. ''0000''),
       mime_TypeByExtension = (\<lambda>ext. []) \<rparr>"

definition small_bucket :: world where
  "small_bucket =
     \<lparr> w_store = [(''a.jpg'', ''IMGaaaa''), (''thumb/a.jpg'', ''JPGaa''), (''b.mp4'', ''VIDIMGbbbb'')],
       w_log = [], w_calls = [] \<rparr>"

definition media_bucket :: world where
  "media_bucket =
     \<lparr> w_store = [(''photos/x.png'', ''IMGxxxx''), (''photos/bad.png'', ''garbage''),
                  (''clips/y.mp4'', ''broken''), (''clips/z.mp4'', ''VIDIMGzzzz''),
                  (''notes.txt'', ''IMGnotes''), (''thumb/a.jpg'', ''IMGthumb'')],
       w_log = [], w_calls = [] \<rparr>"

definition empty_bucket :: world where
  "empty_bucket = \<lparr> w_store = [], w_log = [], w_calls = [] \<rparr>"


text \<open>
  \<open>media_bucket_cached\<close> is \<open>media_bucket\<close> after one request for the thumbnail of
  \<open>photos/x.png\<close>: the thumbnail is stored, one line is logged and the codec was called
  three times.
\<close>

definition media_bucket_cached :: world where
  "media_bucket_cached =
     \<lparr> w_store = w_store media_bucket @ [(''thumb/photos/x.jpg'', ''JPGxx'')],
       w_log = [LogGenerating ''photos/x.png'' ''thumb/photos/x.jpg''],
       w_calls = [CallDecode, CallResize, CallEncode] \<rparr>"





section \<open>What every row of the listing satisfies\<close>


section \<open>Facts about the path functions\<close>

lemma split_slash_nonempty: "split_slash p \<noteq> []"
  by (induction p) auto

lemma split_slash_append:
  "CHR ''/'' \<notin> set a \<Longrightarrow> split_slash (a @ CHR ''/'' # b) = a # split_slash b"
  by (induction a) auto

lemma slash_decompose:
  "CHR ''/'' \<in> set p \<Longrightarrow> \<exists>a b. p = a @ CHR ''/'' # b \<and> CHR ''/'' \<notin> set a"
  by (metis split_list_first)

lemma ext_scan_cut: "ext_scan (xs @ CHR ''/'' # ys) acc = ext_scan xs acc"
  by (induction xs arbitrary: acc) auto

lemma ext_scan_length: "length (ext_scan xs acc) \<le> length xs + length acc"
proof (induction xs arbitrary: acc)
  case Nil
  show ?case by simp
next
  case (Cons c cs)
  from Cons [of "c # acc"] show ?case by simp
qed

lemma path_Ext_length: "length (path_Ext p) \<le> length p"
  using ext_scan_length [of "rev p" "[]"] by (simp add: path_Ext_def)

lemma path_Ext_after_slash: "path_Ext (a @ CHR ''/'' # b) = path_Ext b"
  by (simp add: path_Ext_def ext_scan_cut)

lemma strip_ext_after_slash: "strip_ext (a @ CHR ''/'' # b) = a @ CHR ''/'' # strip_ext b"
  using path_Ext_length [of b]
  by (simp add: strip_ext_def path_Ext_after_slash Suc_diff_le)

lemma elem_takeWhile:
  "CHR ''/'' \<notin> set e \<Longrightarrow> rest = [] \<or> hd rest = CHR ''/'' \<Longrightarrow>
   takeWhile (\<lambda>x. x \<noteq> CHR ''/'') (e @ rest) = e"
  by (cases rest) (auto simp: takeWhile_tail)

lemma elem_dropWhile:
  "CHR ''/'' \<notin> set e \<Longrightarrow> rest = [] \<or> hd rest = CHR ''/'' \<Longrightarrow>
   dropWhile (\<lambda>x. x \<noteq> CHR ''/'') (e @ rest) = rest"
  by (cases rest) (auto simp: dropWhile_append3)

text \<open>
  One round of the cleaning loop on an ordinary element: the element is copied to the
  buffer, after a slash when the buffer is not empty.
\<close>

lemma clean_loop_elem:
  assumes "e \<noteq> []" "CHR ''/'' \<notin> set e" "e \<noteq> ''.''" "e \<noteq> ''..''"
    and "rest = [] \<or> hd rest = CHR ''/''"
  shows "clean_loop False (e @ rest) out dd
         = clean_loop False rest ((if out \<noteq> [] then out @ ''/'' else out) @ e) dd"
proof -
  obtain c cs where e: "e = c # cs" using assms(1) by (cases e) auto
  have c: "c \<noteq> CHR ''/''" and cs: "CHR ''/'' \<notin> set cs" using assms(2) e by auto
  have tw: "takeWhile (\<lambda>x. x \<noteq> CHR ''/'') (c # cs @ rest) = c # cs"
    using c elem_takeWhile [OF cs assms(5)] by simp
  have dw: "dropWhile (\<lambda>x. x \<noteq> CHR ''/'') (c # cs @ rest) = rest"
    using c elem_dropWhile [OF cs assms(5)] by simp
  have dot: "\<not> (c = CHR ''.'' \<and> (cs @ rest = [] \<or> hd (cs @ rest) = CHR ''/''))"
    using assms(3) e cs by (cases cs) auto
  have dotdot: "\<not> (c = CHR ''.'' \<and> cs @ rest \<noteq> [] \<and> hd (cs @ rest) = CHR ''.''
              \<and> (tl (cs @ rest) = [] \<or> hd (tl (cs @ rest)) = CHR ''/''))"
  proof (cases cs)
    case Nil
    then show ?thesis using assms(3) e by auto
  next
    case (Cons d ds)
    then show ?thesis using assms(4) e cs by (cases ds) auto
  qed
  show ?thesis
    unfolding e append_Cons
    by (subst clean_loop.simps(2)) (simp only: c dot dotdot tw dw if_False, simp)
qed

lemma last_elem_real:
  assumes "CHR ''/'' \<notin> set p"
  shows "strip_ext p @ ''.jpg'' \<noteq> []"
    and "CHR ''/'' \<notin> set (strip_ext p @ ''.jpg'')"
    and "strip_ext p @ ''.jpg'' \<noteq> ''.''"
    and "strip_ext p @ ''.jpg'' \<noteq> ''..''"
  using assms by (auto simp: strip_ext_def dest: in_set_takeD)

lemma clean_loop_clean_dirs:
  "clean_dirs p \<Longrightarrow> out \<noteq> [] \<Longrightarrow>
   clean_loop False (strip_ext p @ ''.jpg'') out dd = out @ ''/'' @ strip_ext p @ ''.jpg''"
proof (induction p arbitrary: out rule: length_induct)
  case (1 p)
  show ?case
  proof (cases "CHR ''/'' \<in> set p")
    case False
    from clean_loop_elem [OF last_elem_real [OF False], of "[]" out dd] 1(3)
    show ?thesis by simp
  next
    case True
    then obtain a b where p: "p = a @ CHR ''/'' # b" and a: "CHR ''/'' \<notin> set a"
      using slash_decompose by blast
    from 1(2) have ra: "real_elem a" and cb: "clean_dirs b"
      by (simp_all add: clean_dirs_def p split_slash_append [OF a] split_slash_nonempty)
    have "clean_loop False (strip_ext p @ ''.jpg'') out dd
          = clean_loop False (a @ (CHR ''/'' # strip_ext b @ ''.jpg'')) out dd"
      by (simp add: p strip_ext_after_slash)
    also have "\<dots> = clean_loop False (CHR ''/'' # strip_ext b @ ''.jpg'') (out @ ''/'' @ a) dd"
      using clean_loop_elem [of a "CHR ''/'' # strip_ext b @ ''.jpg''" out dd] ra a 1(3)
      by (simp add: real_elem_def)
    also have "\<dots> = clean_loop False (strip_ext b @ ''.jpg'') (out @ ''/'' @ a) dd"
      by (subst clean_loop.simps(2)) simp
    also have "\<dots> = (out @ ''/'' @ a) @ ''/'' @ strip_ext b @ ''.jpg''"
      using 1(1) cb by (simp add: p)
    finally show ?thesis by (simp add: p strip_ext_after_slash)
  qed
qed

lemma getThumbPath_Clean:
  "getThumbPath n = path_Clean (''thumb/'' @ strip_ext n @ ''.jpg'')"
  by (simp add: getThumbPath_def path_Join_def strip_ext_def Let_def)

section \<open>The thumbnail key\<close>

text \<open>
  Claim C1, as stated: for every name with an extension the thumbnail key is exactly
  \<open>thumb/\<close>, the name without its extension, and \<open>.jpg\<close>. The code joins the two parts with
  \<^verbatim>\<open>path.Join\<close>, which cleans the result, so the statement fails on a name with an empty,
  \<open>.\<close> or \<open>..\<close> directory segment: \<open>a//b.png\<close> has the extension \<open>.png\<close> and its key is
  \<open>thumb/a/b.jpg\<close>, not \<open>thumb/a//b.jpg\<close>.
\<close>

theorem getThumbPath_not_concat_counterexample:
  "path_Ext ''a//b.png'' = ''.png'' \<and>
   getThumbPath ''a//b.png'' = ''thumb/a/b.jpg'' \<and>
   getThumbPath ''a//b.png'' \<noteq> ''thumb/'' @ strip_ext ''a//b.png'' @ ''.jpg''"
  by code_simp

text \<open>
  Claim C1, amended: the thumbnail key of a name \<open>n\<close> is the cleaned form of \<open>thumb/\<close>, \<open>n\<close>
  without its extension, and \<open>.jpg\<close>; and for every name whose directory segments are all
  ordinary (none empty, \<open>.\<close> or \<open>..\<close>; in particular the name does not start with a slash)
  it is exactly that concatenation, with forward slashes. This holds for every such
  name, with or without an extension. The key is a function of the name alone.
\<close>

theorem getThumbPath_clean_dirs:
  "getThumbPath n = path_Clean (''thumb/'' @ strip_ext n @ ''.jpg'') \<and>
   (clean_dirs n \<longrightarrow> getThumbPath n = ''thumb/'' @ strip_ext n @ ''.jpg'')"
proof (intro conjI impI)
  show g: "getThumbPath n = path_Clean (''thumb/'' @ strip_ext n @ ''.jpg'')"
    by (rule getThumbPath_Clean)
  assume cd: "clean_dirs n"
  have "clean_loop False (''thumb'' @ (CHR ''/'' # strip_ext n @ ''.jpg'')) [] 0
        = clean_loop False (CHR ''/'' # strip_ext n @ ''.jpg'') ''thumb'' 0"
    by (subst clean_loop_elem) simp_all
  also have "\<dots> = clean_loop False (strip_ext n @ ''.jpg'') ''thumb'' 0"
    by (subst clean_loop.simps(2)) simp
  also have "\<dots> = ''thumb'' @ ''/'' @ strip_ext n @ ''.jpg''"
    using cd by (rule clean_loop_clean_dirs) simp
  finally show "getThumbPath n = ''thumb/'' @ strip_ext n @ ''.jpg''"
    by (simp add: g path_Clean_def)
qed

theorem getThumbPath_clean_dirs_witness:
  "clean_dirs ''folder/video.mp4'' \<and>
   path_Ext ''folder/video.mp4'' = ''.mp4'' \<and>
   getThumbPath ''folder/video.mp4'' = ''thumb/folder/video.jpg''"
proof -
  have cd: "clean_dirs ''folder/video.mp4''" by code_simp
  have ext: "path_Ext ''folder/video.mp4'' = ''.mp4''" by code_simp
  have st: "strip_ext ''folder/video.mp4'' = ''folder/video''" by code_simp
  from getThumbPath_clean_dirs [of "''folder/video.mp4''"] cd
  have "getThumbPath ''folder/video.mp4'' = ''thumb/'' @ strip_ext ''folder/video.mp4'' @ ''.jpg''"
    by blast
  with cd ext st show ?thesis by simp
qed

section \<open>Facts about the handlers\<close>

subsection \<open>The state\<close>

lemma add_log_fields [simp]:
  "w_store (add_log e w) = w_store w"
  "w_calls (add_log e w) = w_calls w"
  "w_log (add_log e w) = w_log w @ [e]"
  by (simp_all add: add_log_def)

lemma add_call_fields [simp]:
  "w_store (add_call c w) = w_store w"
  "w_calls (add_call c w) = w_calls w @ [c]"
  "w_log (add_call c w) = w_log w"
  by (simp_all add: add_call_def)

lemma reader_read_add [simp]:
  "reader_read (add_log e w) rc = reader_read w rc"
  "reader_read (add_call c w) rc = reader_read w rc"
  by (simp_all add: reader_read_def)

lemma obj_Attrs_add [simp]:
  "obj_Attrs env (add_log e w) name = obj_Attrs env w name"
  "obj_Attrs env (add_call c w) name = obj_Attrs env w name"
  by (simp_all add: obj_Attrs_def)

lemma obj_put_store:
  "w_store (obj_put env key data w) =
     (if store_write env key data = WriteOk then AList.update key data (w_store w) else w_store w)"
  by (simp add: obj_put_def)

lemma generateVideoThumbnail_store [simp]:
  "w_store (snd (generateVideoThumbnail env video w)) = w_store w"
  by (simp add: generateVideoThumbnail_def Let_def split: option.splits prod.splits)

lemma thumb_generate_store [simp]:
  "w_store (snd (thumb_generate env name orig w)) = w_store w"
proof -
  obtain r w' where g: "generateVideoThumbnail env orig w = (r, w')"
    by (cases "generateVideoThumbnail env orig w") auto
  with generateVideoThumbnail_store [of env orig w] have "w_store w' = w_store w" by simp
  then show ?thesis
    using g by (auto simp: thumb_generate_def Let_def split: option.splits prod.splits sum.splits)
qed

lemma upload_generate_store [simp]:
  "w_store (snd (upload_generate env p content w)) = w_store w"
proof -
  obtain r w' where g: "generateVideoThumbnail env content w = (r, w')"
    by (cases "generateVideoThumbnail env content w") auto
  with generateVideoThumbnail_store [of env content w] have "w_store w' = w_store w" by simp
  then show ?thesis
    using g by (auto simp: upload_generate_def Let_def split: option.splits prod.splits sum.splits)
qed


subsection \<open>Classification\<close>


lemma classify_Image: "classify name = Image \<longleftrightarrow>
   \<not> hasSuffix name [''.mp4'', ''.mov'', ''.mkv'', ''.webm''] \<and> hasSuffix name [''.jpg'', ''.jpeg'', ''.png'', ''.gif'', ''.webp'']"
  by (simp add: classify_def video_exts_def image_exts_def)





subsection \<open>The thumbnail handler on a hit and on a miss\<close>

lemma thumbHandler_hit:
  assumes "strings_TrimPrefix url_path ''/thumb/'' = name" "name \<noteq> []"
    and "obj_Attrs env w (getThumbPath name) = Some sz"
  shows "\<exists>body. reader_read w (getThumbPath name) = Some body \<and>
           thumbHandler env url_path w = (Served ''image/jpeg'' ''public, max-age=604800'' body, w)"
proof -
  from assms(3) obtain body where b: "map_of (w_store w) (getThumbPath name) = Some body"
    by (auto simp: obj_Attrs_def split: if_splits)
  then show ?thesis
    using assms by (simp add: thumbHandler_def Let_def obj_NewReader_def reader_read_def)
qed


text \<open>The handler on a cache miss, once the original has been downloaded.\<close>

lemma thumbHandler_miss:
  assumes "strings_TrimPrefix url_path ''/thumb/'' = name" "name \<noteq> []"
    and "obj_Attrs env w (getThumbPath name) = None"
    and "\<not> create_temp_fails env (''orig-*'' @ filepath_Ext name)"
    and "reader_read w name = Some orig"
  shows "thumbHandler env url_path w =
     (case thumb_generate env name orig (add_log (LogGenerating name (getThumbPath name)) w) of
        (Inl resp, w2) \<Rightarrow> (resp, w2)
      | (Inr thumbData, w2) \<Rightarrow> thumb_save_and_serve env (getThumbPath name) thumbData w2)"
  using assms by (simp add: thumbHandler_def Let_def obj_NewReader_def)

lemma thumb_generate_Inl:
  "thumb_generate env name orig w = (Inl resp, w') \<Longrightarrow>
   resp = Redirect ''/static/file-icon.png'' 302 \<or> resp = HttpError ''decode failed'' 500"
  by (auto simp: thumb_generate_def Let_def split: if_splits option.splits prod.splits sum.splits)


lemma thumb_save_and_serve_eq:
  "thumb_save_and_serve env key thumbData w =
     (Served ''image/jpeg'' ''public, max-age=604800'' thumbData,
      obj_put env key thumbData
        (if store_write env key thumbData = WriteErr then add_log LogSaveThumbFailed w else w))"
  by (simp add: thumb_save_and_serve_def Let_def)



text \<open>What a served answer of the handler means, on a hit and on a miss.\<close>

lemma thumbHandler_Served_cases:
  assumes "thumbHandler env url_path w = (Served ct cc data, w1)"
  defines "name \<equiv> strings_TrimPrefix url_path ''/thumb/''"
  shows "name \<noteq> [] \<and> ct = ''image/jpeg'' \<and> cc = ''public, max-age=604800'' \<and>
         ((\<exists>sz. obj_Attrs env w (getThumbPath name) = Some sz \<and> w1 = w \<and>
                reader_read w (getThumbPath name) = Some data)
          \<or> (obj_Attrs env w (getThumbPath name) = None \<and>
              (\<exists>w2. w_store w2 = w_store w \<and> w1 = obj_put env (getThumbPath name) data w2)))"
proof -
  have ne: "name \<noteq> []"
    using assms(1) by (auto simp: thumbHandler_def Let_def name_def)
  show ?thesis
  proof (cases "obj_Attrs env w (getThumbPath name)")
    case (Some sz)
    from thumbHandler_hit [OF refl ne [unfolded name_def] Some [unfolded name_def]] assms(1)
    show ?thesis using Some ne by (auto simp: name_def)
  next
    case None
    from assms(1) None ne obtain orig where
      t: "\<not> create_temp_fails env (''orig-*'' @ filepath_Ext name)" and
      o: "reader_read w name = Some orig"
      by (auto simp: thumbHandler_def Let_def name_def obj_NewReader_def
               split: if_splits option.splits)
    let ?w0 = "add_log (LogGenerating name (getThumbPath name)) w"
    obtain r w2 where g: "thumb_generate env name orig ?w0 = (r, w2)"
      by (cases "thumb_generate env name orig ?w0") auto
    from thumb_generate_store [of env name orig ?w0] g have s2: "w_store w2 = w_store w"
      by simp
    have h: "thumbHandler env url_path w =
       (case thumb_generate env name orig ?w0 of
          (Inl resp, w2) \<Rightarrow> (resp, w2)
        | (Inr thumbData, w2) \<Rightarrow> thumb_save_and_serve env (getThumbPath name) thumbData w2)"
      by (rule thumbHandler_miss [OF _ ne None t o]) (simp add: name_def)
    show ?thesis
    proof (cases r)
      case (Inl resp)
      with g h assms(1) thumb_generate_Inl [of env name orig ?w0 resp w2]
      show ?thesis by auto
    next
      case (Inr thumbData)
      with g h assms(1) s2 None ne show ?thesis
        by (auto simp: thumb_save_and_serve_eq intro!: exI [where x = "if store_write env (getThumbPath name) data = WriteErr then add_log LogSaveThumbFailed w2 else w2"])
    qed
  qed
qed


subsection \<open>The listing\<close>

lemma index_loop_names:
  "map row_Name (index_loop env w names files)
   = map row_Name files @
     filter (\<lambda>n. \<not> strings_HasPrefix n ''thumb/'' \<and> obj_Attrs env w n \<noteq> None) names"
  by (induction names arbitrary: files) (auto simp: row_Name_def Let_def split: option.splits)

lemma obj_Attrs_listed:
  assumes "n \<in> set (map fst (w_store w))"
  shows "obj_Attrs env w n \<noteq> None \<longleftrightarrow> \<not> attrs_fails env n"
proof -
  from assms have "map_of (w_store w) n \<noteq> None"
    by (simp add: map_of_eq_None_iff)
  then show ?thesis by (auto simp: obj_Attrs_def)
qed




subsection \<open>The upload handler once the file has been received\<close>




section \<open>Evaluations in the example world\<close>

lemma example_env_sel:
  "imaging_Decode example_env b = (if take 3 b = ''IMG'' then Some (drop 3 b) else None)"
  "imaging_Resize example_env i = take 2 i"
  "imaging_Encode example_env i = (''JPG'' @ i, False)"
  "run_ffmpeg example_env v = (if take 3 v = ''VID'' then Some (drop 3 v) else None)"
  "create_temp_fails example_env pattern = False"
  "read_file_fails example_env = False"
  "copy_fails example_env = False"
  "attrs_fails example_env name = False"
  "store_write example_env name data = WriteOk"
  "list_error example_env = None"
  "sha1_hex example_env b = ''0000''"
  "mime_TypeByExtension example_env e = []"
  by (simp_all add: example_env_def)



lemma trim_x: "strings_TrimPrefix ''/thumb/photos/x.png'' ''/thumb/'' = ''photos/x.png''"
  by code_simp

lemma key_x: "getThumbPath ''photos/x.png'' = ''thumb/photos/x.jpg''"
  by code_simp

lemma class_x: "classify ''photos/x.png'' = Image"
  by code_simp

lemma example_first_call:
  "thumbHandler example_env ''/thumb/photos/x.png'' media_bucket
     = (Served ''image/jpeg'' ''public, max-age=604800'' ''JPGxx'', media_bucket_cached)"
proof -
  have miss: "obj_Attrs example_env media_bucket (getThumbPath ''photos/x.png'') = None"
    by (simp add: key_x obj_Attrs_def example_env_def media_bucket_def)
  have t: "\<not> create_temp_fails example_env (''orig-*'' @ filepath_Ext ''photos/x.png'')"
    by (simp add: example_env_def)
  have o: "reader_read media_bucket ''photos/x.png'' = Some ''IMGxxxx''"
    by (simp add: reader_read_def media_bucket_def)
  have nv: "\<not> hasSuffix ''photos/x.png'' [''.mp4'', ''.mov'', ''.mkv'', ''.webm'']"
    using class_x by (simp add: classify_Image)
  show ?thesis
    unfolding thumbHandler_miss [OF trim_x _ miss t o, simplified]
    by (simp add: thumb_generate_def nv key_x thumb_save_and_serve_def obj_put_def Let_def
          example_env_def media_bucket_def media_bucket_cached_def add_log_def add_call_def)
qed

lemma trim_bad: "strings_TrimPrefix ''/thumb/photos/bad.png'' ''/thumb/'' = ''photos/bad.png''"
  by code_simp

lemma key_bad: "getThumbPath ''photos/bad.png'' = ''thumb/photos/bad.jpg''"
  by code_simp

lemma class_bad: "classify ''photos/bad.png'' = Image"
  by code_simp

lemma bad_facts:
  "obj_Attrs example_env media_bucket (getThumbPath ''photos/bad.png'') = None"
  "\<not> create_temp_fails example_env (''orig-*'' @ filepath_Ext ''photos/bad.png'')"
  "reader_read media_bucket ''photos/bad.png'' = Some ''garbage''"
  "imaging_Decode example_env ''garbage'' = None"
  by (simp_all add: key_bad obj_Attrs_def example_env_sel media_bucket_def reader_read_def)











section \<open>Decode failures of images\<close>

text \<open>
  Claim C2, as stated: in the generation path of the thumbnail handler, when the original
  is classified as an image and its bytes do not decode, the original bytes are returned
  with content type JPEG. The code answers differently (line 244): the request fails with
  status 500 and the message \<open>decode failed\<close>. In the example bucket \<open>photos/bad.png\<close>
  is an image by name whose bytes do not decode.
\<close>

theorem thumbHandler_no_original_bytes_counterexample:
  "classify ''photos/bad.png'' = Image \<and>
   reader_read media_bucket ''photos/bad.png'' = Some ''garbage'' \<and>
   imaging_Decode example_env ''garbage'' = None \<and>
   fst (thumbHandler example_env ''/thumb/photos/bad.png'' media_bucket)
     = HttpError ''decode failed'' 500 \<and>
   fst (thumbHandler example_env ''/thumb/photos/bad.png'' media_bucket)
     \<noteq> Served ''image/jpeg'' ''public, max-age=604800'' ''garbage''"
proof -
  have nv: "\<not> hasSuffix ''photos/bad.png'' [''.mp4'', ''.mov'', ''.mkv'', ''.webm'']"
    using class_bad by (simp add: classify_Image)
  have "fst (thumbHandler example_env ''/thumb/photos/bad.png'' media_bucket)
          = HttpError ''decode failed'' 500"
    unfolding thumbHandler_miss [OF trim_bad _ bad_facts(1,2,3), simplified]
    by (simp add: thumb_generate_def nv bad_facts(4) Let_def)
  then show ?thesis
    by (simp add: class_bad bad_facts)
qed

text \<open>
  Claim C2, amended: in the generation path (no cached thumbnail, the original
  downloaded), when the original is classified as an image and its bytes do not decode,
  the handler fails the request with status 500 and the message \<open>decode failed\<close>; no
  bytes are served and the bucket is left as it was (the state changes only by one log
  line and one call of the decoder).
\<close>

theorem thumbHandler_image_decode_failure:
  assumes "strings_TrimPrefix url_path ''/thumb/'' = name" "name \<noteq> []"
    and "obj_Attrs env w (getThumbPath name) = None"
    and "\<not> create_temp_fails env (''orig-*'' @ filepath_Ext name)"
    and "reader_read w name = Some orig"
    and "classify name = Image"
    and "imaging_Decode env orig = None"
  shows "thumbHandler env url_path w =
           (HttpError ''decode failed'' 500,
            add_call CallDecode (add_log (LogGenerating name (getThumbPath name)) w))"
  using assms(6,7)
  by (simp add: thumbHandler_miss [OF assms(1-5)] thumb_generate_def classify_Image Let_def)

theorem thumbHandler_image_decode_failure_witness:
  "strings_TrimPrefix ''/thumb/photos/bad.png'' ''/thumb/'' = ''photos/bad.png'' \<and>
   obj_Attrs example_env media_bucket (getThumbPath ''photos/bad.png'') = None \<and>
   \<not> create_temp_fails example_env (''orig-*'' @ filepath_Ext ''photos/bad.png'') \<and>
   reader_read media_bucket ''photos/bad.png'' = Some ''garbage'' \<and>
   classify ''photos/bad.png'' = Image \<and>
   imaging_Decode example_env ''garbage'' = None \<and>
   thumbHandler example_env ''/thumb/photos/bad.png'' media_bucket
     = (HttpError ''decode failed'' 500,
        \<lparr>w_store = w_store media_bucket,
         w_log = [LogGenerating ''photos/bad.png'' ''thumb/photos/bad.jpg''],
         w_calls = [CallDecode]\<rparr>)"
  using thumbHandler_image_decode_failure [OF trim_bad _ bad_facts(1,2,3) class_bad bad_facts(4)]
    trim_bad bad_facts class_bad
  by (simp add: key_bad add_call_def add_log_def media_bucket_def)

section \<open>Names that are neither image nor video\<close>




section \<open>Serving a cached thumbnail\<close>

text \<open>
  A request that was served, and after which the probe for the cache entry succeeds,
  can be repeated: the repetition is a hit on the same bytes.
\<close>

lemma thumbHandler_repeat:
  assumes first: "thumbHandler env url_path w = (Served ct cc data, w1)"
    and cached: "obj_Attrs env w1 (getThumbPath (strings_TrimPrefix url_path ''/thumb/'')) \<noteq> None"
  shows "thumbHandler env url_path w1
           = (Served ''image/jpeg'' ''public, max-age=604800'' data, w1)"
proof -
  let ?name = "strings_TrimPrefix url_path ''/thumb/''"
  let ?key = "getThumbPath ?name"
  from thumbHandler_Served_cases [OF first]
  have ne: "?name \<noteq> []" and
    cases: "(\<exists>sz. obj_Attrs env w ?key = Some sz \<and> w1 = w \<and> reader_read w ?key = Some data)
        \<or> (obj_Attrs env w ?key = None \<and>
            (\<exists>w2. w_store w2 = w_store w \<and> w1 = obj_put env ?key data w2))"
    by simp_all
  from cached obtain sz1 where sz1: "obj_Attrs env w1 ?key = Some sz1" by auto
  have stored: "reader_read w1 ?key = Some data"
    using cases
  proof
    assume "\<exists>sz. obj_Attrs env w ?key = Some sz \<and> w1 = w \<and> reader_read w ?key = Some data"
    then show ?thesis by auto
  next
    assume m: "obj_Attrs env w ?key = None \<and>
          (\<exists>w2. w_store w2 = w_store w \<and> w1 = obj_put env ?key data w2)"
    then obtain w2 where w2: "w_store w2 = w_store w" "w1 = obj_put env ?key data w2"
      by auto
    from sz1 have nf: "\<not> attrs_fails env ?key"
      by (auto simp: obj_Attrs_def split: if_splits)
    with m have absent: "map_of (w_store w) ?key = None"
      by (auto simp: obj_Attrs_def)
    from sz1 nf have present: "map_of (w_store w1) ?key \<noteq> None"
      by (auto simp: obj_Attrs_def)
    show ?thesis
    proof (cases "store_write env ?key data = WriteOk")
      case True
      then show ?thesis
        by (simp add: reader_read_def w2 obj_put_store update_conv')
    next
      case False
      with present absent w2 show ?thesis by (simp add: obj_put_store)
    qed
  qed
  from thumbHandler_hit [OF refl ne sz1] stored show ?thesis by auto
qed

text \<open>
  A request that was served leaves the cache entry in place when the store accepts the
  write of the served bytes and the probe for the entry does not fail.
\<close>

lemma thumbHandler_populates:
  assumes first: "thumbHandler env url_path w = (Served ct cc data, w1)"
    and ok: "store_write env (getThumbPath (strings_TrimPrefix url_path ''/thumb/'')) data = WriteOk"
    and nf: "\<not> attrs_fails env (getThumbPath (strings_TrimPrefix url_path ''/thumb/''))"
  shows "obj_Attrs env w1 (getThumbPath (strings_TrimPrefix url_path ''/thumb/'')) \<noteq> None"
proof -
  let ?key = "getThumbPath (strings_TrimPrefix url_path ''/thumb/'')"
  from thumbHandler_Served_cases [OF first]
  have "(\<exists>sz. obj_Attrs env w ?key = Some sz \<and> w1 = w \<and> reader_read w ?key = Some data)
        \<or> (obj_Attrs env w ?key = None \<and>
            (\<exists>w2. w_store w2 = w_store w \<and> w1 = obj_put env ?key data w2))"
    by simp
  then show ?thesis
  proof
    assume "\<exists>sz. obj_Attrs env w ?key = Some sz \<and> w1 = w \<and> reader_read w ?key = Some data"
    then show ?thesis by auto
  next
    assume "obj_Attrs env w ?key = None \<and>
          (\<exists>w2. w_store w2 = w_store w \<and> w1 = obj_put env ?key data w2)"
    then obtain w2 where "w1 = obj_put env ?key data w2" by auto
    with ok nf show ?thesis
      by (simp add: obj_Attrs_def obj_put_store update_conv')
  qed
qed

text \<open>
  Claim C4: when the cache entry of a thumbnail exists, the handler answers with the
  stored bytes, unchanged, and generates nothing: the state after the request is the
  state before it, so the codec and the transcoder are not called and nothing is
  written (first part). A first request that is served leaves the cache entry in place
  when the store accepts the write and the probe for the entry works (second part); and
  when the cache entry exists after a served first request, a second request for the
  same path is served the same bytes and leaves the state, with its record of codec and
  transcoder calls, unchanged (third part).
\<close>

theorem thumbHandler_cache_hit:
  "(strings_TrimPrefix url_path ''/thumb/'' \<noteq> [] \<and>
    obj_Attrs env w (getThumbPath (strings_TrimPrefix url_path ''/thumb/'')) = Some sz
    \<longrightarrow> (\<exists>body. reader_read w (getThumbPath (strings_TrimPrefix url_path ''/thumb/'')) = Some body \<and>
           thumbHandler env url_path w
             = (Served ''image/jpeg'' ''public, max-age=604800'' body, w)))
   \<and>
   (thumbHandler env url_path w = (Served ct cc data, w1) \<and>
    store_write env (getThumbPath (strings_TrimPrefix url_path ''/thumb/'')) data = WriteOk \<and>
    \<not> attrs_fails env (getThumbPath (strings_TrimPrefix url_path ''/thumb/''))
    \<longrightarrow> obj_Attrs env w1 (getThumbPath (strings_TrimPrefix url_path ''/thumb/'')) \<noteq> None)
   \<and>
   (thumbHandler env url_path w = (Served ct cc data, w1) \<and>
    obj_Attrs env w1 (getThumbPath (strings_TrimPrefix url_path ''/thumb/'')) \<noteq> None
    \<longrightarrow> thumbHandler env url_path w1
          = (Served ''image/jpeg'' ''public, max-age=604800'' data, w1) \<and>
        w_calls (snd (thumbHandler env url_path w1)) = w_calls w1)"
proof (intro conjI impI)
  assume "strings_TrimPrefix url_path ''/thumb/'' \<noteq> [] \<and>
    obj_Attrs env w (getThumbPath (strings_TrimPrefix url_path ''/thumb/'')) = Some sz"
  then show "\<exists>body. reader_read w (getThumbPath (strings_TrimPrefix url_path ''/thumb/'')) = Some body \<and>
           thumbHandler env url_path w = (Served ''image/jpeg'' ''public, max-age=604800'' body, w)"
    using thumbHandler_hit [OF refl, of url_path env w sz] by simp
next
  assume "thumbHandler env url_path w = (Served ct cc data, w1) \<and>
    store_write env (getThumbPath (strings_TrimPrefix url_path ''/thumb/'')) data = WriteOk \<and>
    \<not> attrs_fails env (getThumbPath (strings_TrimPrefix url_path ''/thumb/''))"
  then show "obj_Attrs env w1 (getThumbPath (strings_TrimPrefix url_path ''/thumb/'')) \<noteq> None"
    using thumbHandler_populates [of env url_path w ct cc data w1] by simp
next
  assume a: "thumbHandler env url_path w = (Served ct cc data, w1) \<and>
    obj_Attrs env w1 (getThumbPath (strings_TrimPrefix url_path ''/thumb/'')) \<noteq> None"
  then show r: "thumbHandler env url_path w1
          = (Served ''image/jpeg'' ''public, max-age=604800'' data, w1)"
    using thumbHandler_repeat [of env url_path w ct cc data w1] by simp
  show "w_calls (snd (thumbHandler env url_path w1)) = w_calls w1"
    by (simp add: r)
qed

theorem thumbHandler_cache_hit_witness:
  "strings_TrimPrefix ''/thumb/a.jpg'' ''/thumb/'' \<noteq> [] \<and>
   obj_Attrs example_env small_bucket (getThumbPath (strings_TrimPrefix ''/thumb/a.jpg'' ''/thumb/''))
     = Some 5 \<and>
   thumbHandler example_env ''/thumb/a.jpg'' small_bucket
     = (Served ''image/jpeg'' ''public, max-age=604800'' ''JPGaa'', small_bucket) \<and>
   thumbHandler example_env ''/thumb/photos/x.png'' media_bucket
     = (Served ''image/jpeg'' ''public, max-age=604800'' ''JPGxx'', media_bucket_cached) \<and>
   store_write example_env (getThumbPath (strings_TrimPrefix ''/thumb/photos/x.png'' ''/thumb/''))
     ''JPGxx'' = WriteOk \<and>
   \<not> attrs_fails example_env (getThumbPath (strings_TrimPrefix ''/thumb/photos/x.png'' ''/thumb/'')) \<and>
   obj_Attrs example_env media_bucket_cached
      (getThumbPath (strings_TrimPrefix ''/thumb/photos/x.png'' ''/thumb/'')) \<noteq> None \<and>
   thumbHandler example_env ''/thumb/photos/x.png'' media_bucket_cached
     = (Served ''image/jpeg'' ''public, max-age=604800'' ''JPGxx'', media_bucket_cached) \<and>
   w_calls (snd (thumbHandler example_env ''/thumb/photos/x.png'' media_bucket_cached))
     = [CallDecode, CallResize, CallEncode]"
proof -
  have ta: "strings_TrimPrefix ''/thumb/a.jpg'' ''/thumb/'' = ''a.jpg''" by code_simp
  have ka: "getThumbPath ''a.jpg'' = ''thumb/a.jpg''" by code_simp
  have hit: "obj_Attrs example_env small_bucket
               (getThumbPath (strings_TrimPrefix ''/thumb/a.jpg'' ''/thumb/'')) = Some 5"
    by (simp add: ta ka obj_Attrs_def example_env_sel small_bucket_def)
  have body: "reader_read small_bucket (getThumbPath (strings_TrimPrefix ''/thumb/a.jpg'' ''/thumb/''))
               = Some ''JPGaa''"
    by (simp add: ta ka reader_read_def small_bucket_def)
  have ok: "store_write example_env
              (getThumbPath (strings_TrimPrefix ''/thumb/photos/x.png'' ''/thumb/'')) ''JPGxx'' = WriteOk"
    and nf: "\<not> attrs_fails example_env
              (getThumbPath (strings_TrimPrefix ''/thumb/photos/x.png'' ''/thumb/''))"
    by (simp_all add: example_env_sel)
  note hit_part = thumbHandler_cache_hit [where url_path = "''/thumb/a.jpg''" and env = example_env
      and w = small_bucket and sz = 5, THEN conjunct1, rule_format]
  note first_part = thumbHandler_cache_hit [where url_path = "''/thumb/photos/x.png''"
      and env = example_env and w = media_bucket and ct = "''image/jpeg''"
      and cc = "''public, max-age=604800''" and data = "''JPGxx''" and ?w1.0 = media_bucket_cached,
      THEN conjunct2, THEN conjunct1, rule_format]
  note second_part = thumbHandler_cache_hit [where url_path = "''/thumb/photos/x.png''"
      and env = example_env and w = media_bucket and ct = "''image/jpeg''"
      and cc = "''public, max-age=604800''" and data = "''JPGxx''" and ?w1.0 = media_bucket_cached,
      THEN conjunct2, THEN conjunct2, rule_format]
  from hit_part hit ta body
  have one: "thumbHandler example_env ''/thumb/a.jpg'' small_bucket
     = (Served ''image/jpeg'' ''public, max-age=604800'' ''JPGaa'', small_bucket)"
    by auto
  from first_part example_first_call ok nf
  have cached: "obj_Attrs example_env media_bucket_cached
      (getThumbPath (strings_TrimPrefix ''/thumb/photos/x.png'' ''/thumb/'')) \<noteq> None"
    by blast
  from second_part example_first_call cached
  have two: "thumbHandler example_env ''/thumb/photos/x.png'' media_bucket_cached
     = (Served ''image/jpeg'' ''public, max-age=604800'' ''JPGxx'', media_bucket_cached)"
    by blast
  show ?thesis
    using ta hit one two example_first_call ok nf cached by (simp add: media_bucket_cached_def)
qed

section \<open>The listing hides the thumbnails\<close>

text \<open>
  Claim C5: when the bucket iterator reports no error, the index page lists, in bucket
  order, exactly the names that do not start with \<open>thumb/\<close> and whose attribute request
  succeeds. For the bucket with \<open>a.jpg\<close>, \<open>thumb/a.jpg\<close> and \<open>b.mp4\<close> the page lists
  \<open>a.jpg\<close> and \<open>b.mp4\<close>.
\<close>

theorem indexHandler_hides_thumbs:
  assumes "list_error env = None"
  shows "indexHandler env w = (IndexPage (index_loop env w (map fst (w_store w)) []), w) \<and>
         map row_Name (index_loop env w (map fst (w_store w)) [])
           = filter (\<lambda>n. \<not> strings_HasPrefix n ''thumb/'' \<and> \<not> attrs_fails env n)
               (map fst (w_store w))"
proof -
  have "filter (\<lambda>n. \<not> strings_HasPrefix n ''thumb/'' \<and> obj_Attrs env w n \<noteq> None) (map fst (w_store w))
        = filter (\<lambda>n. \<not> strings_HasPrefix n ''thumb/'' \<and> \<not> attrs_fails env n) (map fst (w_store w))"
    using obj_Attrs_listed [of _ w env] by (intro filter_cong) auto
  then show ?thesis
    using assms by (simp add: indexHandler_def index_loop_names)
qed

theorem indexHandler_hides_thumbs_witness:
  "list_error example_env = None \<and>
   map fst (w_store small_bucket) = [''a.jpg'', ''thumb/a.jpg'', ''b.mp4''] \<and>
   indexHandler example_env small_bucket
     = (IndexPage (index_loop example_env small_bucket (map fst (w_store small_bucket)) []),
        small_bucket) \<and>
   map row_Name (index_loop example_env small_bucket (map fst (w_store small_bucket)) [])
     = [''a.jpg'', ''b.mp4'']"
proof -
  have h: "list_error example_env = None" by (simp add: example_env_def)
  have p: "strings_HasPrefix ''thumb/a.jpg'' ''thumb/''" "\<not> strings_HasPrefix ''a.jpg'' ''thumb/''"
    "\<not> strings_HasPrefix ''b.mp4'' ''thumb/''"
    by (simp_all add: strings_HasPrefix_def)
  have f: "filter (\<lambda>n. \<not> strings_HasPrefix n ''thumb/'' \<and> \<not> attrs_fails example_env n)
               (map fst (w_store small_bucket)) = [''a.jpg'', ''b.mp4'']"
    using p by (simp add: small_bucket_def example_env_def)
  from indexHandler_hides_thumbs [OF h, of small_bucket] h f show ?thesis
    by (simp add: small_bucket_def)
qed

section \<open>Uploads\<close>




section \<open>Failures of the transcoder\<close>



section \<open>Failures of the cache write\<close>



section \<open>Names under the thumbnail folder\<close>




section \<open>Video frames that do not decode\<close>

text \<open>
  Claim C10: in \<^verbatim>\<open>generateVideoThumbnail\<close>, when the transcoder succeeds (and the frame
  file is read) but the frame does not decode as an image, the function returns the
  frame bytes as they are, without resizing and without an error.
\<close>

theorem generateVideoThumbnail_undecodable_frame:
  assumes "\<not> create_temp_fails env ''vid-thumb-*.jpg''"
    and "run_ffmpeg env video = Some frame"
    and "\<not> read_file_fails env"
    and "imaging_Decode env frame = None"
  shows "generateVideoThumbnail env video w = (Inr frame, add_call CallDecode (add_call CallFFmpeg w))"
  using assms by (simp add: generateVideoThumbnail_def Let_def)

theorem generateVideoThumbnail_undecodable_frame_witness:
  "\<not> create_temp_fails example_env ''vid-thumb-*.jpg'' \<and>
   run_ffmpeg example_env ''VIDxyz'' = Some ''xyz'' \<and>
   \<not> read_file_fails example_env \<and>
   imaging_Decode example_env ''xyz'' = None \<and>
   generateVideoThumbnail example_env ''VIDxyz'' empty_bucket
     = (Inr ''xyz'', \<lparr>w_store = [], w_log = [], w_calls = [CallFFmpeg, CallDecode]\<rparr>)"
  using generateVideoThumbnail_undecodable_frame [of example_env "''VIDxyz''" "''xyz''" empty_bucket]
  by (simp add: example_env_def empty_bucket_def add_call_def)

end
